theory Spec2Isabelle
  imports Main
begin

section \<open>The data model of fsm.go\<close>

text \<open>
  The model follows the first variant in \<^verbatim>\<open>fsm.go\<close>, where the logger is a field of the
  machine. The older variant in the same file keeps the logger in a package variable;
  its \<^verbatim>\<open>Define\<close> and \<^verbatim>\<open>Spin\<close> treat the table, the cursor and the context alike.
\<close>

text \<open>
  \<^verbatim>\<open>type Input int\<close> and \<^verbatim>\<open>const NO_INPUT Input = -1\<close>. The library never computes
  with an input or a state index: both are only compared and used as map keys, so Go's
  \<^verbatim>\<open>int\<close> is taken as \<^typ>\<open>int\<close>.
\<close>

type_synonym Input = int

definition NO_INPUT :: Input where
  "NO_INPUT = - 1"

text \<open>
  \<^verbatim>\<open>type Action func(context.Context) (context.Context, Input)\<close>. The context is opaque to
  the library; it is the type parameter \<open>'c\<close>. An action is a total function of the
  context: what a Go closure does to captured variables is carried in the context it
  returns. A nil action, or one that panics or never returns, is outside the model.
\<close>

type_synonym 'c Action = "'c \<Rightarrow> 'c \<times> Input"

definition NO_ACTION :: "'c Action" where
  "NO_ACTION ctx = (ctx, NO_INPUT)"

record 'c Outcome =
  State :: int
  Action :: "'c Action"

record 'c State =
  Index :: int
  Outcomes :: "Input \<rightharpoonup> 'c Outcome"

text \<open>
  Of the logger (a \<^verbatim>\<open>*logrus.Logger\<close>) the source touches the level only. The trace
  lines written through it go to the logger's own sink and are not part of the model.
\<close>

datatype Level = PanicLevel | FatalLevel | ErrorLevel | WarnLevel | InfoLevel
  | DebugLevel | TraceLevel

record Logger =
  Level :: Level

definition logrus_New :: Logger where
  "logrus_New = \<lparr>Level = InfoLevel\<rparr>"

text \<open>
  The machine. The embedded \<^verbatim>\<open>sync.Mutex\<close> is not a field of the record: the model is
  of one caller at a time, for whom \<^verbatim>\<open>Spin\<close> takes the lock on entry and releases it on
  every return. A nil Go map reads like an empty one, so the two name tables that
  \<^verbatim>\<open>Define\<close> leaves nil are empty maps.
\<close>

record 'c FSM =
  states :: "int \<rightharpoonup> 'c State"
  current :: int
  log :: Logger
  stateNames :: "int \<rightharpoonup> string"
  inputNames :: "Input \<rightharpoonup> string"

datatype error =
    InvalidInputError int Input
  | ImpossibleStateError int
  | ClashingStateError int

text \<open>A run-time panic of Go: \<^verbatim>\<open>index out of range [i] with length n\<close>.\<close>

datatype panic = IndexOutOfRange nat nat

section \<open>Define\<close>

text \<open>
  The \<^verbatim>\<open>for _, s := range states\<close> loop of \<^verbatim>\<open>Define\<close>, with the table built so far as
  accumulator. \<open>Inl\<close> is the early \<^verbatim>\<open>return nil, ClashingStateError(s.Index)\<close>.
\<close>

fun Define_loop :: "(int \<rightharpoonup> 'c State) \<Rightarrow> 'c State list \<Rightarrow> error + (int \<rightharpoonup> 'c State)" where
  "Define_loop stateMap [] = Inr stateMap"
| "Define_loop stateMap (s # ss) =
     (case stateMap (Index s) of
        Some _ \<Rightarrow> Inl (ClashingStateError (Index s))
      | None \<Rightarrow> Define_loop (stateMap(Index s \<mapsto> s)) ss)"

text \<open>
  \<^verbatim>\<open>Define\<close> returns the pair \<^verbatim>\<open>(*FSM, error)\<close>; a nil pointer and a nil error are
  \<open>None\<close>. After the loop the struct literal reads \<^verbatim>\<open>states[0].Index\<close>, which panics
  on an empty slice: that is the \<open>Inl\<close> of the result.
\<close>

definition Define :: "'c State list \<Rightarrow> panic + ('c FSM option \<times> error option)" where
  "Define sts =
     (case Define_loop Map.empty sts of
        Inl e \<Rightarrow> Inr (None, Some e)
      | Inr stateMap \<Rightarrow>
          (case sts of
             [] \<Rightarrow> Inl (IndexOutOfRange 0 0)
           | s0 # _ \<Rightarrow>
               Inr (Some \<lparr>states = stateMap, current = Index s0,
                          log = logrus_New\<lparr>Level := FatalLevel\<rparr>,
                          stateNames = Map.empty, inputNames = Map.empty\<rparr>,
                    None)))"

section \<open>Spin\<close>

text \<open>
  The loop \<^verbatim>\<open>for i := in; i != NO_INPUT; { ... }\<close> of \<^verbatim>\<open>Spin\<close> and the
  \<^verbatim>\<open>return ctx, nil\<close> after it. The result is the machine as the call leaves it, the
  returned context and the returned error (\<open>None\<close> for nil). The loop has no bound: the
  value \<open>None\<close> of the whole function is a call that never returns.
\<close>

partial_function (option) Spin_loop ::
  "'c FSM \<Rightarrow> 'c \<Rightarrow> Input \<Rightarrow> ('c FSM \<times> 'c \<times> error option) option" where
  "Spin_loop f ctx i =
     (if i = NO_INPUT then Some (f, ctx, None)
      else
        (case states f (current f) of
           None \<Rightarrow> Some (f, ctx, Some (ImpossibleStateError (current f)))
         | Some s \<Rightarrow>
             (case Outcomes s i of
                None \<Rightarrow> Some (f, ctx, Some (InvalidInputError (current f) i))
              | Some do \<Rightarrow>
                  (case Action do ctx of
                     (ctx', i') \<Rightarrow> Spin_loop (f\<lparr>current := State do\<rparr>) ctx' i'))))"

definition Spin :: "'c FSM \<Rightarrow> 'c \<Rightarrow> Input \<Rightarrow> ('c FSM \<times> 'c \<times> error option) option" where
  "Spin f ctx inp = Spin_loop f ctx inp"

text \<open>The remaining methods: attaching a logger and name tables, and the name lookups.\<close>

definition SetLogger ::
  "'c FSM \<Rightarrow> Logger option \<Rightarrow> (int \<rightharpoonup> string) \<Rightarrow> (Input \<rightharpoonup> string) \<Rightarrow> 'c FSM" where
  "SetLogger f logger sts inputs =
     (case logger of None \<Rightarrow> f | Some l \<Rightarrow> f\<lparr>log := l\<rparr>)
       \<lparr>stateNames := sts, inputNames := inputs\<rparr>"

definition getInputName :: "'c FSM \<Rightarrow> Input \<Rightarrow> string" where
  "getInputName f input = (case inputNames f input of None \<Rightarrow> [] | Some name \<Rightarrow> name)"

definition getStateName :: "'c FSM \<Rightarrow> int \<Rightarrow> string" where
  "getStateName f state = (case stateNames f state of None \<Rightarrow> [] | Some name \<Rightarrow> name)"

section \<open>The chain of outcomes of one call\<close>

text \<open>
  One turn of the loop that fails neither lookup: at cursor \<open>cur\<close> with input \<open>i\<close>, not
  the sentinel, the table gives the state \<open>s\<close>, the state gives the outcome \<open>d\<close> for
  \<open>i\<close>, the action of \<open>d\<close> turns the context into \<open>ctx1\<close> and gives the next input
  \<open>i1\<close>, and the cursor moves to the target of \<open>d\<close>.
  \<open>chain tbl cur ctx i ds cur' ctx' i'\<close> says that from \<open>(cur, ctx, i)\<close> such turns
  select the outcomes \<open>ds\<close>, in this order, and lead to \<open>(cur', ctx', i')\<close>.
\<close>

inductive chain ::
  "(int \<rightharpoonup> 'c State) \<Rightarrow> int \<Rightarrow> 'c \<Rightarrow> Input \<Rightarrow> 'c Outcome list \<Rightarrow> int \<Rightarrow> 'c \<Rightarrow> Input \<Rightarrow> bool"
  for tbl :: "int \<rightharpoonup> 'c State" where
  chain_Nil: "chain tbl cur ctx i [] cur ctx i"
| chain_Cons:
    "i \<noteq> NO_INPUT \<Longrightarrow> tbl cur = Some s \<Longrightarrow> Outcomes s i = Some d \<Longrightarrow>
     Action d ctx = (ctx1, i1) \<Longrightarrow> chain tbl (State d) ctx1 i1 ds cur' ctx' i' \<Longrightarrow>
     chain tbl cur ctx i (d # ds) cur' ctx' i'"

code_pred chain .

text \<open>The context after the actions of the outcomes \<open>ds\<close> have run, first to last.\<close>

fun run_actions :: "'c Outcome list \<Rightarrow> 'c \<Rightarrow> 'c" where
  "run_actions [] ctx = ctx"
| "run_actions (d # ds) ctx = run_actions ds (fst (Action d ctx))"

section \<open>The machines of the test file\<close>

definition test_input_1 :: Input where "test_input_1 = 0"
definition test_input_2 :: Input where "test_input_2 = 1"
definition test_input_3 :: Input where "test_input_3 = 2"

definition test_state_1 :: int where "test_state_1 = 0"
definition test_state_2 :: int where "test_state_2 = 1"
definition test_state_3 :: int where "test_state_3 = 2"

text \<open>
  \<^verbatim>\<open>TestChain\<close>. Its three closures set the flags \<^verbatim>\<open>func1_hit\<close>, \<^verbatim>\<open>func2_hit\<close> and
  \<^verbatim>\<open>func3_hit\<close>; here the context is the triple of the flags.
\<close>

type_synonym hits = "bool \<times> bool \<times> bool"

definition chain_func1 :: "hits Action" where
  "chain_func1 ctx = (case ctx of (h1, h2, h3) \<Rightarrow> ((True, h2, h3), test_input_2))"

definition chain_func2 :: "hits Action" where
  "chain_func2 ctx = (case ctx of (h1, h2, h3) \<Rightarrow> ((h1, True, h3), test_input_2))"

definition chain_func3 :: "hits Action" where
  "chain_func3 ctx = (case ctx of (h1, h2, h3) \<Rightarrow> ((h1, h2, True), NO_INPUT))"

definition TestChain_states :: "hits State list" where
  "TestChain_states =
     [\<lparr>Index = test_state_1,
       Outcomes = [test_input_1 \<mapsto> \<lparr>State = test_state_2, Action = chain_func1\<rparr>,
                   test_input_2 \<mapsto> \<lparr>State = test_state_3, Action = chain_func3\<rparr>,
                   test_input_3 \<mapsto> \<lparr>State = test_state_1, Action = NO_ACTION\<rparr>]\<rparr>,
      \<lparr>Index = test_state_2,
       Outcomes = [test_input_1 \<mapsto> \<lparr>State = test_state_1, Action = NO_ACTION\<rparr>,
                   test_input_2 \<mapsto> \<lparr>State = test_state_1, Action = chain_func2\<rparr>,
                   test_input_3 \<mapsto> \<lparr>State = test_state_1, Action = NO_ACTION\<rparr>]\<rparr>,
      \<lparr>Index = test_state_3,
       Outcomes = [test_input_1 \<mapsto> \<lparr>State = test_state_2, Action = NO_ACTION\<rparr>,
                   test_input_2 \<mapsto> \<lparr>State = test_state_1, Action = NO_ACTION\<rparr>,
                   test_input_3 \<mapsto> \<lparr>State = test_state_1, Action = NO_ACTION\<rparr>]\<rparr>]"

text \<open>
  \<^verbatim>\<open>TestImpossibleState\<close> and \<^verbatim>\<open>TestInvalidInput\<close> define the same two states; the
  first state sends \<^verbatim>\<open>test_input_2\<close> to \<^verbatim>\<open>test_state_3\<close>, which is not defined.
\<close>

definition TestImpossibleState_states :: "'c State list" where
  "TestImpossibleState_states =
     [\<lparr>Index = test_state_1,
       Outcomes = [test_input_1 \<mapsto> \<lparr>State = test_state_2, Action = NO_ACTION\<rparr>,
                   test_input_2 \<mapsto> \<lparr>State = test_state_3, Action = NO_ACTION\<rparr>]\<rparr>,
      \<lparr>Index = test_state_2,
       Outcomes = [test_input_1 \<mapsto> \<lparr>State = test_state_1, Action = NO_ACTION\<rparr>,
                   test_input_2 \<mapsto> \<lparr>State = test_state_1, Action = NO_ACTION\<rparr>]\<rparr>]"

text \<open>\<^verbatim>\<open>TestStateClash\<close>: both states have the index \<^verbatim>\<open>test_state_1\<close>.\<close>

definition TestStateClash_states :: "'c State list" where
  "TestStateClash_states =
     [\<lparr>Index = test_state_1,
       Outcomes = [test_input_1 \<mapsto> \<lparr>State = test_state_2, Action = NO_ACTION\<rparr>,
                   test_input_2 \<mapsto> \<lparr>State = test_state_3, Action = NO_ACTION\<rparr>]\<rparr>,
      \<lparr>Index = test_state_1,
       Outcomes = [test_input_1 \<mapsto> \<lparr>State = test_state_1, Action = NO_ACTION\<rparr>,
                   test_input_2 \<mapsto> \<lparr>State = test_state_1, Action = NO_ACTION\<rparr>]\<rparr>]"

text \<open>
  A machine whose chain breaks half-way: the first state sends \<^verbatim>\<open>test_input_1\<close> to the
  second with the first closure of \<^verbatim>\<open>TestChain\<close>, which asks for \<^verbatim>\<open>test_input_2\<close>; the
  second state has no outcome for it.
\<close>

definition broken_chain_states :: "hits State list" where
  "broken_chain_states =
     [\<lparr>Index = test_state_1,
       Outcomes = [test_input_1 \<mapsto> \<lparr>State = test_state_2, Action = chain_func1\<rparr>]\<rparr>,
      \<lparr>Index = test_state_2,
       Outcomes = [test_input_1 \<mapsto> \<lparr>State = test_state_1, Action = NO_ACTION\<rparr>]\<rparr>]"

text \<open>
  The machine of the chained-actions example: state 1 sends the input \<open>A\<close> to state 2
  with an action that asks for the input \<open>B\<close>, and state 2 sends \<open>B\<close> back to state 1
  with an action that asks for nothing more. What the two actions do to the context is
  left open: \<open>g1\<close> and \<open>g2\<close>.
\<close>

definition two_state_chain :: "Input \<Rightarrow> Input \<Rightarrow> ('c \<Rightarrow> 'c) \<Rightarrow> ('c \<Rightarrow> 'c) \<Rightarrow> 'c State list" where
  "two_state_chain A B g1 g2 =
     [\<lparr>Index = 1, Outcomes = [A \<mapsto> \<lparr>State = 2, Action = (\<lambda>ctx. (g1 ctx, B))\<rparr>]\<rparr>,
      \<lparr>Index = 2, Outcomes = [B \<mapsto> \<lparr>State = 1, Action = (\<lambda>ctx. (g2 ctx, NO_INPUT))\<rparr>]\<rparr>]"

section \<open>Define: the table that the loop builds\<close>

lemmas test_consts =
  test_input_1_def test_input_2_def test_input_3_def
  test_state_1_def test_state_2_def test_state_3_def

text \<open>
  With indices that differ from each other and from the keys already in the table, the
  loop runs to its end: the table has every state under its index and is otherwise as
  before.
\<close>

lemma Define_loop_distinct:
  "distinct (map Index sts) \<Longrightarrow> Index ` set sts \<inter> dom tbl = {} \<Longrightarrow>
   \<exists>tbl'. Define_loop tbl sts = Inr tbl' \<and>
          (\<forall>s \<in> set sts. tbl' (Index s) = Some s) \<and>
          (\<forall>k. k \<notin> Index ` set sts \<longrightarrow> tbl' k = tbl k)"
proof (induction sts arbitrary: tbl)
  case Nil
  then show ?case by simp
next
  case (Cons s sts)
  from Cons.prems have none: "tbl (Index s) = None" by auto
  from Cons.prems have d: "distinct (map Index sts)" and
    fresh: "Index s \<notin> Index ` set sts" and
    disj: "Index ` set sts \<inter> dom (tbl(Index s \<mapsto> s)) = {}"
    by auto
  from Cons.IH[OF d disj] obtain tbl' where
    run: "Define_loop (tbl(Index s \<mapsto> s)) sts = Inr tbl'" and
    inside: "\<forall>s' \<in> set sts. tbl' (Index s') = Some s'" and
    outside: "\<forall>k. k \<notin> Index ` set sts \<longrightarrow> tbl' k = (tbl(Index s \<mapsto> s)) k"
    by blast
  from none run have "Define_loop tbl (s # sts) = Inr tbl'" by simp
  moreover from fresh outside have "tbl' (Index s) = Some s" by simp
  moreover from outside have "\<forall>k. k \<notin> Index ` set (s # sts) \<longrightarrow> tbl' k = tbl k"
    by simp
  ultimately show ?case using inside by simp
qed

text \<open>
  Otherwise the loop returns at the first state whose index is in the table by then:
  the states before it, \<open>pre\<close>, went in, and the error carries the index of that state.
\<close>

lemma Define_loop_clash:
  "\<not> distinct (map Index sts) \<or> Index ` set sts \<inter> dom tbl \<noteq> {} \<Longrightarrow>
   \<exists>pre s post. sts = pre @ s # post \<and> distinct (map Index pre) \<and>
      Index ` set pre \<inter> dom tbl = {} \<and>
      (Index s \<in> Index ` set pre \<or> Index s \<in> dom tbl) \<and>
      Define_loop tbl sts = Inl (ClashingStateError (Index s))"
proof (induction sts arbitrary: tbl)
  case Nil
  then show ?case by simp
next
  case (Cons s sts)
  show ?case
  proof (cases "tbl (Index s)")
    case (Some old)
    then have "Define_loop tbl (s # sts) = Inl (ClashingStateError (Index s))" by simp
    moreover from Some have "Index s \<in> dom tbl" by auto
    ultimately show ?thesis by (intro exI[of _ "[]"] exI[of _ s] exI[of _ sts]) simp
  next
    case None
    let ?tbl = "tbl(Index s \<mapsto> s)"
    from Cons.prems None
    have "\<not> distinct (map Index sts) \<or> Index ` set sts \<inter> dom ?tbl \<noteq> {}"
      by auto
    from Cons.IH[OF this] obtain pre s' post where
      split: "sts = pre @ s' # post" and d: "distinct (map Index pre)" and
      disj: "Index ` set pre \<inter> dom ?tbl = {}" and
      dup: "Index s' \<in> Index ` set pre \<or> Index s' \<in> dom ?tbl" and
      run: "Define_loop ?tbl sts = Inl (ClashingStateError (Index s'))"
      by blast
    from split have "s # sts = (s # pre) @ s' # post" by simp
    moreover from d disj have "distinct (map Index (s # pre))" by auto
    moreover from disj None have "Index ` set (s # pre) \<inter> dom tbl = {}" by auto
    moreover from dup have "Index s' \<in> Index ` set (s # pre) \<or> Index s' \<in> dom tbl"
      by auto
    moreover from None run
    have "Define_loop tbl (s # sts) = Inl (ClashingStateError (Index s'))" by simp
    ultimately show ?thesis by blast
  qed
qed

section \<open>Spin: the loop turn by turn\<close>

lemma Spin_loop_stop: "Spin_loop f ctx NO_INPUT = Some (f, ctx, None)"
  by (simp add: Spin_loop.simps)

lemma Spin_loop_impossible:
  "i \<noteq> NO_INPUT \<Longrightarrow> states f (current f) = None \<Longrightarrow>
   Spin_loop f ctx i = Some (f, ctx, Some (ImpossibleStateError (current f)))"
  by (simp add: Spin_loop.simps)

lemma Spin_loop_invalid:
  "i \<noteq> NO_INPUT \<Longrightarrow> states f (current f) = Some s \<Longrightarrow> Outcomes s i = None \<Longrightarrow>
   Spin_loop f ctx i = Some (f, ctx, Some (InvalidInputError (current f) i))"
  by (simp add: Spin_loop.simps)

lemma Spin_loop_turn:
  "i \<noteq> NO_INPUT \<Longrightarrow> states f (current f) = Some s \<Longrightarrow> Outcomes s i = Some d \<Longrightarrow>
   Action d ctx = (ctx1, i1) \<Longrightarrow>
   Spin_loop f ctx i = Spin_loop (f\<lparr>current := State d\<rparr>) ctx1 i1"
  by (subst Spin_loop.simps) simp

lemma current_self: "f\<lparr>current := current f\<rparr> = f"
  by (cases f) simp

text \<open>Along a chain the loop only moves on: it returns what it returns from the end.\<close>

lemma chain_Spin_loop:
  "chain tbl cur ctx i ds cur' ctx' i' \<Longrightarrow> states f = tbl \<Longrightarrow> current f = cur \<Longrightarrow>
   Spin_loop f ctx i = Spin_loop (f\<lparr>current := cur'\<rparr>) ctx' i'"
proof (induction arbitrary: f rule: chain.induct)
  case (chain_Nil cur ctx i)
  from chain_Nil(2) have "f\<lparr>current := cur\<rparr> = f" by (cases f) auto
  then show ?case by simp
next
  case (chain_Cons i cur s d ctx ctx1 i1 ds cur' ctx' i')
  have "Spin_loop f ctx i = Spin_loop (f\<lparr>current := State d\<rparr>) ctx1 i1"
    using chain_Cons.hyps(1-4) chain_Cons.prems by (simp add: Spin_loop_turn)
  also have "\<dots> = Spin_loop (f\<lparr>current := State d, current := cur'\<rparr>) ctx' i'"
    using chain_Cons.IH[of "f\<lparr>current := State d\<rparr>"] chain_Cons.prems by simp
  finally show ?case by simp
qed

lemma chain_Nil_iff:
  "chain tbl cur ctx i [] cur' ctx' i' \<longleftrightarrow> cur' = cur \<and> ctx' = ctx \<and> i' = i"
  by (auto intro: chain_Nil elim: chain.cases)

lemma chain_nonempty: "chain tbl cur ctx i ds cur' ctx' i' \<Longrightarrow> i \<noteq> i' \<Longrightarrow> ds \<noteq> []"
  by (auto simp: chain_Nil_iff)

lemma chain_last:
  "chain tbl cur ctx i ds cur' ctx' i' \<Longrightarrow> ds \<noteq> [] \<Longrightarrow>
   cur' = State (last ds) \<and> (\<exists>c. Action (last ds) c = (ctx', i'))"
proof (induction rule: chain.induct)
  case (chain_Nil cur ctx i)
  then show ?case by simp
next
  case (chain_Cons i cur s d ctx ctx1 i1 ds cur' ctx' i')
  show ?case
  proof (cases ds)
    case Nil
    with chain_Cons.hyps(5) have "cur' = State d" "ctx' = ctx1" "i' = i1"
      by (simp_all add: chain_Nil_iff)
    with Nil chain_Cons.hyps(4) show ?thesis by auto
  next
    case (Cons a list)
    with chain_Cons.IH show ?thesis by simp
  qed
qed

lemma chain_run_actions:
  "chain tbl cur ctx i ds cur' ctx' i' \<Longrightarrow> ctx' = run_actions ds ctx"
  by (induction rule: chain.induct) auto

text \<open>
  Every return of the loop is at the end of a chain: with the sentinel as input, at a
  cursor that the table does not have, or at an input that the state of the cursor does
  not have.
\<close>

lemma Spin_loop_returns:
  assumes "Spin_loop f ctx i = Some r"
  shows "\<exists>ds cur1 ctx1 i1. chain (states f) (current f) ctx i ds cur1 ctx1 i1 \<and>
        ((i1 = NO_INPUT \<and> r = (f\<lparr>current := cur1\<rparr>, ctx1, None)) \<or>
         (i1 \<noteq> NO_INPUT \<and> states f cur1 = None \<and>
            r = (f\<lparr>current := cur1\<rparr>, ctx1, Some (ImpossibleStateError cur1))) \<or>
         (i1 \<noteq> NO_INPUT \<and> (\<exists>s. states f cur1 = Some s \<and> Outcomes s i1 = None) \<and>
            r = (f\<lparr>current := cur1\<rparr>, ctx1, Some (InvalidInputError cur1 i1))))"
proof -
  let ?end = "\<lambda>f cur1 ctx1 i1 r.
        (i1 = NO_INPUT \<and> r = (f\<lparr>current := cur1\<rparr>, ctx1, None)) \<or>
         (i1 \<noteq> NO_INPUT \<and> states f cur1 = None \<and>
            r = (f\<lparr>current := cur1\<rparr>, ctx1, Some (ImpossibleStateError cur1))) \<or>
         (i1 \<noteq> NO_INPUT \<and> (\<exists>s. states f cur1 = Some s \<and> Outcomes s i1 = None) \<and>
            r = (f\<lparr>current := cur1\<rparr>, ctx1, Some (InvalidInputError cur1 i1)))"
  let ?P = "\<lambda>f ctx i r. \<exists>ds cur1 ctx1 i1.
        chain (states f) (current f) ctx i ds cur1 ctx1 i1 \<and> ?end f cur1 ctx1 i1 r"
  have "?P f ctx i r"
  proof (rule Spin_loop.raw_induct[where P = ?P, OF _ assms], goal_cases)
    case (1 loop f ctx i r)
    note IH = "1"(1) and eq = "1"(2)
    have stop: "chain (states f) (current f) ctx i [] (current f) ctx i" by (rule chain_Nil)
    show "?P f ctx i r"
    proof (cases "i = NO_INPUT")
      case True
      with eq have "r = (f, ctx, None)" by simp
      with True have "?end f (current f) ctx i r" by (simp add: current_self)
      with stop show ?thesis by blast
    next
      case ni: False
      show ?thesis
      proof (cases "states f (current f)")
        case None
        with ni eq have "r = (f, ctx, Some (ImpossibleStateError (current f)))" by simp
        with ni None have "?end f (current f) ctx i r" by (simp add: current_self)
        with stop show ?thesis by blast
      next
        case (Some s)
        show ?thesis
        proof (cases "Outcomes s i")
          case None
          with ni Some eq have "r = (f, ctx, Some (InvalidInputError (current f) i))"
            by simp
          with ni None Some have "?end f (current f) ctx i r" by (simp add: current_self)
          with stop show ?thesis by blast
        next
          case d: (Some d)
          obtain ctx' i' where act: "Action d ctx = (ctx', i')" by (cases "Action d ctx")
          from ni Some d act eq have "loop (f\<lparr>current := State d\<rparr>) ctx' i' = Some r" by simp
          from IH[OF this] obtain ds cur1 ctx1 i1 where
            ex: "chain (states f) (State d) ctx' i' ds cur1 ctx1 i1" and
            r: "?end f cur1 ctx1 i1 r"
            by auto
          have "chain (states f) (current f) ctx i (d # ds) cur1 ctx1 i1"
            using ni Some d act ex by (rule chain_Cons)
          with r show ?thesis by blast
        qed
      qed
    qed
  qed
  then show ?thesis .
qed

text \<open>The chain of \<^verbatim>\<open>TestChain\<close>: states 1, 2, 1, 3, and all three closures run.\<close>

lemma TestChain_chain:
  "\<exists>m. Define TestChain_states = Inr (Some m, None) \<and> current m = test_state_1 \<and>
     chain (states m) (current m) (False, False, False) test_input_1
       [\<lparr>State = test_state_2, Action = chain_func1\<rparr>,
        \<lparr>State = test_state_1, Action = chain_func2\<rparr>,
        \<lparr>State = test_state_3, Action = chain_func3\<rparr>]
       test_state_3 (True, True, True) NO_INPUT"
  apply (simp add: Define_def TestChain_states_def test_consts)
  apply (rule chain_Cons, simp add: NO_INPUT_def, simp, simp, simp add: chain_func1_def test_consts)
  apply (rule chain_Cons, simp add: NO_INPUT_def, simp, simp, simp add: chain_func2_def test_consts)
  apply (rule chain_Cons, simp add: NO_INPUT_def, simp, simp, simp add: chain_func3_def)
  apply (simp add: chain_Nil)
  done

section \<open>Spin: the claims\<close>

text \<open>
  C10. Called with the sentinel \<^verbatim>\<open>NO_INPUT\<close>, \<^verbatim>\<open>Spin\<close> runs the loop body not once: it
  returns the context it was given and no error, and the machine is as it was, cursor
  and every other field; the only chain from the sentinel is the empty one. This holds
  for every machine, also one whose cursor is not a key of its table: the last part is
  the machine of \<^verbatim>\<open>TestImpossibleState\<close> with its cursor put on the undefined
  \<^verbatim>\<open>test_state_3\<close>.
\<close>

theorem Spin_NO_INPUT:
  "Spin f ctx NO_INPUT = Some (f, ctx, None) \<and>
   chain (states f) (current f) ctx NO_INPUT ds cur' ctx' i'
     = (ds = [] \<and> cur' = current f \<and> ctx' = ctx \<and> i' = NO_INPUT) \<and>
   (\<exists>m. Define TestImpossibleState_states = Inr (Some m, None) \<and>
        states m test_state_3 = None \<and>
        Spin (m\<lparr>current := test_state_3\<rparr>) ctx NO_INPUT
          = Some (m\<lparr>current := test_state_3\<rparr>, ctx, None))"
proof -
  have "Spin f ctx NO_INPUT = Some (f, ctx, None)" for f :: "'a FSM"
    by (simp add: Spin_def Spin_loop_stop)
  moreover have "chain (states f) (current f) ctx NO_INPUT ds cur' ctx' i'
     = (ds = [] \<and> cur' = current f \<and> ctx' = ctx \<and> i' = NO_INPUT)"
    by (auto intro: chain_Nil elim: chain.cases)
  moreover have "\<exists>m :: 'a FSM. Define TestImpossibleState_states = Inr (Some m, None) \<and>
        states m test_state_3 = None"
    by (simp add: Define_def TestImpossibleState_states_def test_consts)
  ultimately show ?thesis by auto
qed

text \<open>
  C4. When the cursor is not a key of the state table, \<^verbatim>\<open>Spin\<close> with an input that is
  not the sentinel returns the impossible-state error with the value of the cursor, the
  context it was given, and the machine unchanged.
\<close>

theorem Spin_impossible_state:
  "states f (current f) = None \<Longrightarrow> i \<noteq> NO_INPUT \<Longrightarrow>
   Spin f ctx i = Some (f, ctx, Some (ImpossibleStateError (current f)))"
  by (simp add: Spin_def Spin_loop_impossible)

theorem Spin_impossible_state_witness:
  "\<exists>m. Define (TestImpossibleState_states :: unit State list) = Inr (Some m, None) \<and>
     states (m\<lparr>current := test_state_3\<rparr>) (current (m\<lparr>current := test_state_3\<rparr>)) = None \<and>
     test_input_1 \<noteq> NO_INPUT \<and>
     Spin (m\<lparr>current := test_state_3\<rparr>) () test_input_1
       = Some (m\<lparr>current := test_state_3\<rparr>, (), Some (ImpossibleStateError test_state_3))"
  by (simp add: Define_def TestImpossibleState_states_def test_consts NO_INPUT_def
      Spin_impossible_state)

text \<open>
  C3. When the cursor is a key of the table and the input, not the sentinel, is not a
  key of the outcomes of the cursor's state, \<^verbatim>\<open>Spin\<close> returns the invalid-input error
  with the cursor and that input, the context it was given, and the machine unchanged.
\<close>

theorem Spin_invalid_input:
  "i \<noteq> NO_INPUT \<Longrightarrow> states f (current f) = Some s \<Longrightarrow> Outcomes s i = None \<Longrightarrow>
   Spin f ctx i = Some (f, ctx, Some (InvalidInputError (current f) i))"
  by (simp add: Spin_def Spin_loop_invalid)

theorem Spin_invalid_input_witness:
  "\<exists>m s. Define (TestImpossibleState_states :: unit State list) = Inr (Some m, None) \<and>
     test_input_3 \<noteq> NO_INPUT \<and> states m (current m) = Some s \<and>
     Outcomes s test_input_3 = None \<and>
     Spin m () test_input_3
       = Some (m, (), Some (InvalidInputError test_state_1 test_input_3))"
proof -
  let ?s = "\<lparr>Index = test_state_1,
       Outcomes = [test_input_1 \<mapsto> \<lparr>State = test_state_2, Action = NO_ACTION\<rparr>,
                   test_input_2 \<mapsto> \<lparr>State = test_state_3, Action = NO_ACTION\<rparr>]\<rparr> :: unit State"
  obtain m :: "unit FSM" where m: "Define TestImpossibleState_states = Inr (Some m, None)"
    and cur: "current m = test_state_1" and s: "states m (current m) = Some ?s"
    by (simp add: Define_def TestImpossibleState_states_def test_consts)
  have ni: "test_input_3 \<noteq> NO_INPUT" and no: "Outcomes ?s test_input_3 = None"
    by (simp_all add: test_consts NO_INPUT_def)
  from Spin_invalid_input[OF ni s no, of "()"] m cur s ni no show ?thesis
    by (intro exI[of _ m] exI[of _ ?s]) simp
qed

text \<open>
  C1. When following the outcomes from the cursor and the input (look up the state of
  the cursor, look up the outcome of the input, run its action for the next context and
  input, move the cursor to its target) reaches the sentinel, with no lookup failing on
  the way, \<^verbatim>\<open>Spin\<close> returns, with no error and with the context at the end of the chain,
  and the cursor is where the chain ends. When the call's input is not itself the
  sentinel, that is the target of the last outcome of the chain, the one whose action
  gave the sentinel.
\<close>

theorem Spin_follows_chain:
  assumes "chain (states f) (current f) ctx i ds cur' ctx' NO_INPUT"
  shows "Spin f ctx i = Some (f\<lparr>current := cur'\<rparr>, ctx', None) \<and>
         (i \<noteq> NO_INPUT \<longrightarrow>
            ds \<noteq> [] \<and> cur' = State (last ds) \<and>
            (\<exists>c. Action (last ds) c = (ctx', NO_INPUT)))"
proof -
  have "Spin_loop f ctx i = Spin_loop (f\<lparr>current := cur'\<rparr>) ctx' NO_INPUT"
    using assms by (rule chain_Spin_loop) simp_all
  then have "Spin f ctx i = Some (f\<lparr>current := cur'\<rparr>, ctx', None)"
    by (simp add: Spin_def Spin_loop_stop)
  moreover have "ds \<noteq> [] \<and> cur' = State (last ds) \<and>
      (\<exists>c. Action (last ds) c = (ctx', NO_INPUT))" if "i \<noteq> NO_INPUT"
    using assms that chain_nonempty[OF assms] chain_last[OF assms] by simp
  ultimately show ?thesis by simp
qed

theorem Spin_follows_chain_witness:
  "\<exists>m. Define TestChain_states = Inr (Some m, None) \<and>
     chain (states m) (current m) (False, False, False) test_input_1
       [\<lparr>State = test_state_2, Action = chain_func1\<rparr>,
        \<lparr>State = test_state_1, Action = chain_func2\<rparr>,
        \<lparr>State = test_state_3, Action = chain_func3\<rparr>]
       test_state_3 (True, True, True) NO_INPUT \<and>
     Spin m (False, False, False) test_input_1
       = Some (m\<lparr>current := test_state_3\<rparr>, (True, True, True), None)"
proof -
  from TestChain_chain obtain m where
    m: "Define TestChain_states = Inr (Some m, None)" and
    ch: "chain (states m) (current m) (False, False, False) test_input_1
       [\<lparr>State = test_state_2, Action = chain_func1\<rparr>,
        \<lparr>State = test_state_1, Action = chain_func2\<rparr>,
        \<lparr>State = test_state_3, Action = chain_func3\<rparr>]
       test_state_3 (True, True, True) NO_INPUT"
    by blast
  from Spin_follows_chain[OF ch] m ch show ?thesis by blast
qed

text \<open>
  C2. When \<^verbatim>\<open>Spin\<close> returns an error, the error is raised at the end of a chain of
  outcomes \<open>ds\<close> that the call has taken before. The cursor is left where that chain
  ends (the target of its last outcome, or the cursor of the call when no outcome was
  taken): the transitions made are kept. The returned context is the given one after
  the actions of \<open>ds\<close>, in order (the given one when no action ran). The error names
  the cursor at that point, and the pending input when the input is the missing one.
\<close>

theorem Spin_error_keeps_progress:
  assumes "Spin f ctx i = Some (f', ctx', Some e)"
  shows "\<exists>ds cur1 i1.
           chain (states f) (current f) ctx i ds cur1 ctx' i1 \<and>
           f' = f\<lparr>current := cur1\<rparr> \<and>
           cur1 = (if ds = [] then current f else State (last ds)) \<and>
           ctx' = run_actions ds ctx \<and>
           i1 \<noteq> NO_INPUT \<and>
           (states f cur1 = None \<and> e = ImpossibleStateError cur1 \<or>
            (\<exists>s. states f cur1 = Some s \<and> Outcomes s i1 = None) \<and>
              e = InvalidInputError cur1 i1)"
proof -
  from assms have "Spin_loop f ctx i = Some (f', ctx', Some e)" by (simp add: Spin_def)
  from Spin_loop_returns[OF this] obtain ds cur1 i1 where
    ch: "chain (states f) (current f) ctx i ds cur1 ctx' i1" and
    f': "f' = f\<lparr>current := cur1\<rparr>" and ni: "i1 \<noteq> NO_INPUT" and
    e: "states f cur1 = None \<and> e = ImpossibleStateError cur1 \<or>
        (\<exists>s. states f cur1 = Some s \<and> Outcomes s i1 = None) \<and>
          e = InvalidInputError cur1 i1"
    by auto
  have "cur1 = (if ds = [] then current f else State (last ds))"
    using ch chain_last[OF ch] by (auto simp: chain_Nil_iff)
  moreover have "ctx' = run_actions ds ctx" using ch by (rule chain_run_actions)
  ultimately show ?thesis using ch f' ni e by blast
qed

theorem Spin_error_keeps_progress_witness:
  "\<exists>m. Define broken_chain_states = Inr (Some m, None) \<and> current m = test_state_1 \<and>
     Spin m (False, False, False) test_input_1
       = Some (m\<lparr>current := test_state_2\<rparr>, (True, False, False),
               Some (InvalidInputError test_state_2 test_input_2)) \<and>
     (\<exists>ds i1.
         chain (states m) (current m) (False, False, False) test_input_1 ds
           test_state_2 (True, False, False) i1 \<and>
         test_state_2 = (if ds = [] then current m else State (last ds)) \<and>
         (True, False, False) = run_actions ds (False, False, False))"
proof -
  obtain m where m: "Define broken_chain_states = Inr (Some m, None)"
    and cur: "current m = test_state_1"
    and sp: "Spin m (False, False, False) test_input_1
       = Some (m\<lparr>current := test_state_2\<rparr>, (True, False, False),
               Some (InvalidInputError test_state_2 test_input_2))"
    by (simp add: Define_def broken_chain_states_def Spin_def Spin_loop.simps test_consts
        NO_INPUT_def chain_func1_def)
  from Spin_error_keeps_progress[OF sp] obtain ds cur1 i1 where
    ch: "chain (states m) (current m) (False, False, False) test_input_1 ds
           cur1 (True, False, False) i1" and
    eq: "m\<lparr>current := test_state_2\<rparr> = m\<lparr>current := cur1\<rparr>" and
    c1: "cur1 = (if ds = [] then current m else State (last ds))" and
    ra: "(True, False, False) = run_actions ds (False, False, False)"
    by blast
  from eq have c: "cur1 = test_state_2"
    by (cases m) simp
  have
     "chain (states m) (current m) (False, False, False) test_input_1 ds
           test_state_2 (True, False, False) i1 \<and>
      test_state_2 = (if ds = [] then current m else State (last ds)) \<and>
      (True, False, False) = run_actions ds (False, False, False)"
    using ch c1 ra unfolding c by (intro conjI)
  then have "\<exists>ds i1.
         chain (states m) (current m) (False, False, False) test_input_1 ds
           test_state_2 (True, False, False) i1 \<and>
         test_state_2 = (if ds = [] then current m else State (last ds)) \<and>
         (True, False, False) = run_actions ds (False, False, False)"
    by blast
  with m cur sp show ?thesis by (intro exI[of _ m]) simp
qed

section \<open>Define: the claims\<close>

text \<open>
  C5. When two states of the list have the same index, \<^verbatim>\<open>Define\<close> returns no machine
  and the clashing-state error, however long the list and whatever its order. The
  states are taken in the order of the list: the error is raised at the first state
  \<open>s\<close> whose index is the index of one before it, and carries that index.
\<close>

theorem Define_clashing_state:
  assumes "\<not> distinct (map Index sts)"
  shows "\<exists>pre s post. sts = pre @ s # post \<and> distinct (map Index pre) \<and>
           Index s \<in> Index ` set pre \<and>
           Define sts = Inr (None, Some (ClashingStateError (Index s)))"
proof -
  from assms have "\<not> distinct (map Index sts) \<or> Index ` set sts \<inter> dom Map.empty \<noteq> {}"
    by simp
  from Define_loop_clash[OF this] obtain pre s post where
    "sts = pre @ s # post" "distinct (map Index pre)" "Index s \<in> Index ` set pre"
    "Define_loop Map.empty sts = Inl (ClashingStateError (Index s))"
    by auto
  moreover from this(4) have "Define sts = Inr (None, Some (ClashingStateError (Index s)))"
    by (simp add: Define_def)
  ultimately show ?thesis by blast
qed

theorem Define_clashing_state_witness:
  "\<not> distinct (map Index (TestStateClash_states :: unit State list)) \<and>
   Define (TestStateClash_states :: unit State list)
     = Inr (None, Some (ClashingStateError test_state_1))"
proof -
  have nd: "\<not> distinct (map Index (TestStateClash_states :: unit State list))"
    by (simp add: TestStateClash_states_def)
  from Define_clashing_state[OF nd] obtain pre s post where
    split: "(TestStateClash_states :: unit State list) = pre @ s # post" and
    r: "Define (TestStateClash_states :: unit State list)
          = Inr (None, Some (ClashingStateError (Index s)))"
    by blast
  have "s \<in> set (pre @ s # post)" by simp
  with split have "s \<in> set (TestStateClash_states :: unit State list)" by metis
  then have "Index s = test_state_1" by (auto simp: TestStateClash_states_def)
  with nd r show ?thesis by simp
qed

text \<open>
  C6. For a list of states that is not empty and whose indices differ from each other,
  \<^verbatim>\<open>Define\<close> returns a machine and no error. The table of the machine has every state
  of the list under its index, and no other key; the cursor is the index of the first
  state of the list.
\<close>

theorem Define_distinct:
  assumes "sts \<noteq> []" and "distinct (map Index sts)"
  shows "\<exists>m. Define sts = Inr (Some m, None) \<and>
           (\<forall>s \<in> set sts. states m (Index s) = Some s) \<and>
           dom (states m) = Index ` set sts \<and>
           current m = Index (hd sts)"
proof -
  from assms(2) have "\<exists>tbl'. Define_loop Map.empty sts = Inr tbl' \<and>
          (\<forall>s \<in> set sts. tbl' (Index s) = Some s) \<and>
          (\<forall>k. k \<notin> Index ` set sts \<longrightarrow> tbl' k = Map.empty k)"
    by (rule Define_loop_distinct) simp
  then obtain tbl' where
    run: "Define_loop Map.empty sts = Inr tbl'" and
    inside: "\<forall>s \<in> set sts. tbl' (Index s) = Some s" and
    outside: "\<forall>k. k \<notin> Index ` set sts \<longrightarrow> tbl' k = None"
    by auto
  from assms(1) obtain s0 rest where sts: "sts = s0 # rest" by (cases sts) auto
  let ?m = "\<lparr>states = tbl', current = Index s0, log = logrus_New\<lparr>Level := FatalLevel\<rparr>,
             stateNames = Map.empty, inputNames = Map.empty\<rparr>"
  from run sts have "Define sts = Inr (Some ?m, None)" by (simp add: Define_def)
  moreover from inside outside have "dom tbl' = Index ` set sts"
    by (auto simp: dom_def)
  ultimately show ?thesis using inside sts by (intro exI[of _ ?m]) simp
qed

theorem Define_distinct_witness:
  "(TestChain_states :: hits State list) \<noteq> [] \<and> distinct (map Index TestChain_states) \<and>
   (\<exists>m. Define TestChain_states = Inr (Some m, None) \<and>
        dom (states m) = {test_state_1, test_state_2, test_state_3} \<and>
        current m = test_state_1)"
proof -
  have ne: "TestChain_states \<noteq> []" and d: "distinct (map Index TestChain_states)"
    by (simp_all add: TestChain_states_def test_consts)
  from Define_distinct[OF ne d] obtain m where
    "Define TestChain_states = Inr (Some m, None)"
    "dom (states m) = Index ` set TestChain_states"
    "current m = Index (hd TestChain_states)"
    by blast
  moreover have "Index ` set TestChain_states = {test_state_1, test_state_2, test_state_3}"
    "Index (hd TestChain_states) = test_state_1"
    by (simp_all add: TestChain_states_def)
  ultimately show ?thesis using ne d by auto
qed

text \<open>
  C9. \<^verbatim>\<open>Define\<close> does not check that it is given a state. With the empty list the
  loop does nothing and the read of \<^verbatim>\<open>states[0]\<close> is out of range: the call panics, it
  returns neither a machine nor a clashing-state error. With a list that is not empty
  the call returns, a machine or the error: the read is in range.
\<close>

theorem Define_no_states:
  "Define ([] :: 'c State list) = Inl (IndexOutOfRange 0 0) \<and>
   (sts \<noteq> [] \<longrightarrow> (\<exists>r. Define sts = Inr r))"
  by (cases sts) (auto simp: Define_def split: sum.splits)

theorem Define_no_states_witness:
  "Define ([] :: unit State list) = Inl (IndexOutOfRange 0 0) \<and>
   (TestStateClash_states :: unit State list) \<noteq> [] \<and>
   (\<exists>r. Define (TestStateClash_states :: unit State list) = Inr r)"
proof -
  have ne: "(TestStateClash_states :: unit State list) \<noteq> []"
    by (simp add: TestStateClash_states_def)
  with Define_no_states[of "TestStateClash_states :: unit State list", where ?'c = unit]
  show ?thesis by blast
qed

section \<open>Spin on defined machines: the claims\<close>

text \<open>
  C7. Take the machine of two states where state 1 sends the input \<open>A\<close> to state 2 with
  an action that returns the input \<open>B\<close>, and state 2 sends \<open>B\<close> to state 1 with an
  action that returns the sentinel. \<^verbatim>\<open>Define\<close> gives it with the cursor on state 1, and
  one call of \<^verbatim>\<open>Spin\<close> with \<open>A\<close> returns no error, with the cursor on state 1 and the
  context that the first action and then the second make of the given one: both
  actions have run.
\<close>

theorem Spin_two_state_chain:
  assumes "A \<noteq> NO_INPUT" and "B \<noteq> NO_INPUT"
  shows "\<exists>m. Define (two_state_chain A B g1 g2) = Inr (Some m, None) \<and>
           current m = 1 \<and>
           Spin m ctx A = Some (m\<lparr>current := 1\<rparr>, g2 (g1 ctx), None)"
proof -
  let ?d1 = "\<lparr>State = 2, Action = (\<lambda>ctx. (g1 ctx, B))\<rparr>"
  let ?d2 = "\<lparr>State = 1, Action = (\<lambda>ctx. (g2 ctx, NO_INPUT))\<rparr>"
  let ?s1 = "\<lparr>Index = 1, Outcomes = [A \<mapsto> ?d1]\<rparr>"
  let ?s2 = "\<lparr>Index = 2, Outcomes = [B \<mapsto> ?d2]\<rparr>"
  let ?m = "\<lparr>states = [1 \<mapsto> ?s1, 2 \<mapsto> ?s2], current = 1,
             log = logrus_New\<lparr>Level := FatalLevel\<rparr>,
             stateNames = Map.empty, inputNames = Map.empty\<rparr>"
  have def: "Define (two_state_chain A B g1 g2) = Inr (Some ?m, None)"
    by (simp add: Define_def two_state_chain_def)
  have "Spin_loop ?m ctx A = Spin_loop (?m\<lparr>current := State ?d1\<rparr>) (g1 ctx) B"
    using assms(1) by (rule Spin_loop_turn[where s = ?s1]) simp_all
  also have "\<dots> = Spin_loop (?m\<lparr>current := State ?d1, current := State ?d2\<rparr>)
      (g2 (g1 ctx)) NO_INPUT"
    using assms(2) by (rule Spin_loop_turn[where s = ?s2]) simp_all
  also have "\<dots> = Some (?m\<lparr>current := 1\<rparr>, g2 (g1 ctx), None)"
    by (simp add: Spin_loop_stop)
  finally have "Spin ?m ctx A = Some (?m\<lparr>current := 1\<rparr>, g2 (g1 ctx), None)"
    by (simp add: Spin_def)
  with def show ?thesis by (intro exI[of _ ?m]) simp
qed

theorem Spin_two_state_chain_witness:
  "test_input_1 \<noteq> NO_INPUT \<and> test_input_2 \<noteq> NO_INPUT \<and>
   (\<exists>m. Define (two_state_chain test_input_1 test_input_2 ((#) (1::nat)) ((#) 2))
          = Inr (Some m, None) \<and>
        current m = 1 \<and>
        Spin m [] test_input_1 = Some (m\<lparr>current := 1\<rparr>, [2, 1], None))"
proof -
  have a: "test_input_1 \<noteq> NO_INPUT" and b: "test_input_2 \<noteq> NO_INPUT"
    by (simp_all add: test_consts NO_INPUT_def)
  from Spin_two_state_chain[OF a b, of "(#) (1::nat)" "(#) 2" "[]"] a b
  show ?thesis by simp
qed

text \<open>
  C8. \<^verbatim>\<open>Define\<close> does not check that the targets of the outcomes are states of the
  table. It accepts the two states of \<^verbatim>\<open>TestImpossibleState\<close>, of which the first sends
  \<^verbatim>\<open>test_input_2\<close> to the undefined \<^verbatim>\<open>test_state_3\<close>; on the machine it returns, one
  \<^verbatim>\<open>Spin\<close> with that input returns no error and leaves the cursor on
  \<^verbatim>\<open>test_state_3\<close>, not a key of the table, and only the next \<^verbatim>\<open>Spin\<close> returns the
  impossible-state error. In general: on any machine, an outcome whose action returns
  the sentinel is taken without error also when its target is no key of the table, and
  the error comes with the next input.
\<close>

theorem Define_accepts_undefined_target:
  "(\<exists>m. Define TestImpossibleState_states = Inr (Some m, None) \<and>
        Spin m ctx test_input_2 = Some (m\<lparr>current := test_state_3\<rparr>, ctx, None) \<and>
        states m test_state_3 = None \<and>
        Spin (m\<lparr>current := test_state_3\<rparr>) ctx test_input_1
          = Some (m\<lparr>current := test_state_3\<rparr>, ctx,
                  Some (ImpossibleStateError test_state_3))) \<and>
   (states f (current f) = Some s \<and> i \<noteq> NO_INPUT \<and> Outcomes s i = Some d \<and>
    Action d ctx = (c', NO_INPUT) \<and> states f (State d) = None \<and> j \<noteq> NO_INPUT \<longrightarrow>
      Spin f ctx i = Some (f\<lparr>current := State d\<rparr>, c', None) \<and>
      Spin (f\<lparr>current := State d\<rparr>) c' j
        = Some (f\<lparr>current := State d\<rparr>, c', Some (ImpossibleStateError (State d))))"
proof -
  have general:
    "Spin f ctx i = Some (f\<lparr>current := State d\<rparr>, c', None) \<and>
     Spin (f\<lparr>current := State d\<rparr>) c' j
       = Some (f\<lparr>current := State d\<rparr>, c', Some (ImpossibleStateError (State d)))"
    if "states f (current f) = Some s" "i \<noteq> NO_INPUT" "Outcomes s i = Some d"
       "Action d ctx = (c', NO_INPUT)" "states f (State d) = None" "j \<noteq> NO_INPUT"
    for f :: "'a FSM" and s i d c' j
  proof -
    have "Spin_loop f ctx i = Spin_loop (f\<lparr>current := State d\<rparr>) c' NO_INPUT"
      using that(2,1,3,4) by (rule Spin_loop_turn)
    then have "Spin f ctx i = Some (f\<lparr>current := State d\<rparr>, c', None)"
      by (simp add: Spin_def Spin_loop_stop)
    moreover have "Spin (f\<lparr>current := State d\<rparr>) c' j
       = Some (f\<lparr>current := State d\<rparr>, c', Some (ImpossibleStateError (State d)))"
      using that(5,6) by (simp add: Spin_def Spin_loop_impossible)
    ultimately show ?thesis by simp
  qed
  let ?d = "\<lparr>State = test_state_3, Action = NO_ACTION\<rparr> :: 'a Outcome"
  let ?s = "\<lparr>Index = test_state_1,
       Outcomes = [test_input_1 \<mapsto> \<lparr>State = test_state_2, Action = NO_ACTION\<rparr>,
                   test_input_2 \<mapsto> ?d]\<rparr>"
  obtain m :: "'a FSM" where
    m: "Define TestImpossibleState_states = Inr (Some m, None)" and
    s: "states m (current m) = Some ?s" and
    none: "states m test_state_3 = None"
    by (simp add: Define_def TestImpossibleState_states_def test_consts)
  have "Spin m ctx test_input_2 = Some (m\<lparr>current := State ?d\<rparr>, ctx, None) \<and>
     Spin (m\<lparr>current := State ?d\<rparr>) ctx test_input_1
       = Some (m\<lparr>current := State ?d\<rparr>, ctx, Some (ImpossibleStateError (State ?d)))"
    using s none by (intro general[where s = ?s])
      (simp_all add: test_consts NO_INPUT_def NO_ACTION_def)
  with m none have ex: "\<exists>m. Define TestImpossibleState_states = Inr (Some m, None) \<and>
        Spin m ctx test_input_2 = Some (m\<lparr>current := test_state_3\<rparr>, ctx, None) \<and>
        states m test_state_3 = None \<and>
        Spin (m\<lparr>current := test_state_3\<rparr>) ctx test_input_1
          = Some (m\<lparr>current := test_state_3\<rparr>, ctx,
                  Some (ImpossibleStateError test_state_3))"
    by (intro exI[of _ m]) simp
  show ?thesis
  proof (rule conjI)
    show "\<exists>m. Define TestImpossibleState_states = Inr (Some m, None) \<and>
        Spin m ctx test_input_2 = Some (m\<lparr>current := test_state_3\<rparr>, ctx, None) \<and>
        states m test_state_3 = None \<and>
        Spin (m\<lparr>current := test_state_3\<rparr>) ctx test_input_1
          = Some (m\<lparr>current := test_state_3\<rparr>, ctx,
                  Some (ImpossibleStateError test_state_3))"
      by (fact ex)
  next
    show "states f (current f) = Some s \<and> i \<noteq> NO_INPUT \<and> Outcomes s i = Some d \<and>
      Action d ctx = (c', NO_INPUT) \<and> states f (State d) = None \<and> j \<noteq> NO_INPUT \<longrightarrow>
      Spin f ctx i = Some (f\<lparr>current := State d\<rparr>, c', None) \<and>
      Spin (f\<lparr>current := State d\<rparr>) c' j
        = Some (f\<lparr>current := State d\<rparr>, c', Some (ImpossibleStateError (State d)))"
    proof (rule impI, elim conjE)
      assume "states f (current f) = Some s" "i \<noteq> NO_INPUT" "Outcomes s i = Some d"
        "Action d ctx = (c', NO_INPUT)" "states f (State d) = None" "j \<noteq> NO_INPUT"
      then show "Spin f ctx i = Some (f\<lparr>current := State d\<rparr>, c', None) \<and>
        Spin (f\<lparr>current := State d\<rparr>) c' j
          = Some (f\<lparr>current := State d\<rparr>, c', Some (ImpossibleStateError (State d)))"
        by (rule general)
    qed
  qed
qed

theorem Define_accepts_undefined_target_witness:
  "\<exists>m s d. Define (TestImpossibleState_states :: unit State list) = Inr (Some m, None) \<and>
      states m (current m) = Some s \<and> test_input_2 \<noteq> NO_INPUT \<and>
      Outcomes s test_input_2 = Some d \<and> Action d () = ((), NO_INPUT) \<and>
      states m (State d) = None \<and> test_input_1 \<noteq> NO_INPUT \<and>
      Spin m () test_input_2 = Some (m\<lparr>current := State d\<rparr>, (), None) \<and>
      Spin (m\<lparr>current := State d\<rparr>) () test_input_1
        = Some (m\<lparr>current := State d\<rparr>, (), Some (ImpossibleStateError (State d)))"
proof -
  let ?d = "\<lparr>State = test_state_3, Action = NO_ACTION\<rparr> :: unit Outcome"
  let ?s = "\<lparr>Index = test_state_1,
       Outcomes = [test_input_1 \<mapsto> \<lparr>State = test_state_2, Action = NO_ACTION\<rparr>,
                   test_input_2 \<mapsto> ?d]\<rparr>"
  obtain m :: "unit FSM" where
    m: "Define TestImpossibleState_states = Inr (Some m, None)" and
    s: "states m (current m) = Some ?s" and
    none: "states m (State ?d) = None"
    by (simp add: Define_def TestImpossibleState_states_def test_consts)
  have hyps: "test_input_2 \<noteq> NO_INPUT" "Outcomes ?s test_input_2 = Some ?d"
    "Action ?d () = ((), NO_INPUT)" "test_input_1 \<noteq> NO_INPUT"
    by (simp_all add: test_consts NO_INPUT_def NO_ACTION_def)
  from Define_accepts_undefined_target[of "()" m ?s test_input_2 ?d "()" test_input_1]
    s none hyps
  have "Spin m () test_input_2 = Some (m\<lparr>current := State ?d\<rparr>, (), None) \<and>
      Spin (m\<lparr>current := State ?d\<rparr>) () test_input_1
        = Some (m\<lparr>current := State ?d\<rparr>, (), Some (ImpossibleStateError (State ?d)))"
    by blast
  with m s none hyps show ?thesis
    by (intro exI[of _ m] exI[of _ ?s] exI[of _ ?d]) simp
qed

end
